theory Spec2Isabelle
  imports Complex_Main
begin

section \<open>SVG Cleaner GUI: job building and result handling of the main window\<close>

text \<open>
  The development follows \<^verbatim>\<open>src/mainwindow.cpp\<close>: the static helpers
  \<^verbatim>\<open>genOutputPath\<close>, \<^verbatim>\<open>genCleanData\<close> and \<^verbatim>\<open>resetTreeData\<close>, and the slots
  \<^verbatim>\<open>MainWindow::onStart\<close> and \<^verbatim>\<open>MainWindow::onResultReadyAt\<close>.
  A \<^verbatim>\<open>QString\<close> is a \<open>string\<close>. Widget updates (progress bar, button visibility,
  message boxes, view refresh through \<^verbatim>\<open>itemEditFinished\<close>) carry no data the
  properties below depend on; a message box shown before a \<^verbatim>\<open>return\<close> appears as the
  error value of the outcome.
\<close>

subsection \<open>Strings\<close>

text \<open>\<^verbatim>\<open>QString::endsWith(QChar)\<close>: false on the empty string.\<close>

definition endsWith :: "string \<Rightarrow> char \<Rightarrow> bool" where
  "endsWith s c = (case rev s of [] \<Rightarrow> False | x # _ \<Rightarrow> x = c)"

text \<open>\<^verbatim>\<open>QString::chop(n)\<close>: removes \<open>n\<close> characters from the end; the result is
  empty when \<open>n\<close> is at least the size.\<close>

definition chop :: "nat \<Rightarrow> string \<Rightarrow> string" where
  "chop n s = take (length s - n) s"

subsection \<open>Path helpers of the toolkit\<close>

text \<open>
  \<^verbatim>\<open>genOutputPath\<close> calls \<^verbatim>\<open>QDir::separator()\<close>, \<^verbatim>\<open>QFileInfo(path).fileName()\<close>,
  \<^verbatim>\<open>QFileInfo(path).completeBaseName()\<close>, \<^verbatim>\<open>QFileInfo(path).absolutePath()\<close>,
  \<^verbatim>\<open>QDir(rootFolder).dirName()\<close> and \<^verbatim>\<open>QDir(rootFolder).relativeFilePath(path)\<close>.
  They belong to the toolkit, not to the repository, so the functions below take them as
  a parameter: a record of functions on strings.
\<close>

record QtPaths =
  separator :: char
  fileName :: "string \<Rightarrow> string"
  completeBaseName :: "string \<Rightarrow> string"
  absolutePath :: "string \<Rightarrow> string"
  dirName :: "string \<Rightarrow> string"
  relativeFilePath :: "string \<Rightarrow> string \<Rightarrow> string"

text \<open>
  A concrete instance for the examples: the documented behaviour of these helpers on a
  Unix build, for clean absolute paths written with \<open>/\<close> (no \<open>.\<close> or \<open>..\<close>
  component, no doubled separator). Resolution of a relative path against the current
  directory is not part of it.
\<close>

definition unix_fileName :: "string \<Rightarrow> string" where
  "unix_fileName p = rev (takeWhile (\<lambda>c. c \<noteq> CHR ''/'') (rev p))"

definition unix_completeBaseName :: "string \<Rightarrow> string" where
  "unix_completeBaseName p =
     (let f = unix_fileName p in
      if CHR ''.'' \<in> set f then rev (tl (dropWhile (\<lambda>c. c \<noteq> CHR ''.'') (rev f))) else f)"

definition unix_absolutePath :: "string \<Rightarrow> string" where
  "unix_absolutePath p =
     (case dropWhile (\<lambda>c. c \<noteq> CHR ''/'') (rev p) of
        [] \<Rightarrow> ''.''
      | _ # d \<Rightarrow> if d = [] then ''/'' else rev d)"

definition unix_dirName :: "string \<Rightarrow> string" where
  "unix_dirName d =
     unix_fileName (if 1 < length d \<and> endsWith d (CHR ''/'') then chop 1 d else d)"

fun splitParts :: "string \<Rightarrow> string \<Rightarrow> string list" where
  "splitParts [] cur = (if cur = [] then [] else [cur])"
| "splitParts (x # xs) cur =
     (if x = CHR ''/'' then (if cur = [] then splitParts xs [] else cur # splitParts xs [])
      else splitParts xs (cur @ [x]))"

fun dropCommon :: "string list \<Rightarrow> string list \<Rightarrow> string list \<times> string list" where
  "dropCommon (x # xs) (y # ys) = (if x = y then dropCommon xs ys else (x # xs, y # ys))"
| "dropCommon xs ys = (xs, ys)"

fun joinParts :: "string list \<Rightarrow> string" where
  "joinParts [] = []"
| "joinParts [x] = x"
| "joinParts (x # y # ys) = x @ ''/'' @ joinParts (y # ys)"

definition unix_relativeFilePath :: "string \<Rightarrow> string \<Rightarrow> string" where
  "unix_relativeFilePath dir file =
     (if \<not> (file \<noteq> [] \<and> hd file = CHR ''/'') then file
      else
        (case dropCommon (splitParts dir []) (splitParts file []) of
           (d, f) \<Rightarrow>
             (let result = concat (replicate (length d) ''../'') @ joinParts f
              in if result = [] then ''.'' else result)))"

definition unixQt :: QtPaths where
  "unixQt = \<lparr> separator = CHR ''/'',
              fileName = unix_fileName,
              completeBaseName = unix_completeBaseName,
              absolutePath = unix_absolutePath,
              dirName = unix_dirName,
              relativeFilePath = unix_relativeFilePath \<rparr>"

subsection \<open>Settings\<close>

text \<open>\<^verbatim>\<open>AppSettings::SavingMethod\<close>. \<^verbatim>\<open>onStart\<close> casts the integer stored
  under \<^verbatim>\<open>SettingKey::SavingMethod\<close> to this type; the stored value is taken to be
  one of the three enumerators.\<close>

datatype SavingMethod = SelectFolder | SameFolder | Overwrite

text \<open>\<^verbatim>\<open>Compressor::Type\<close>: the source names only \<^verbatim>\<open>Compressor::None\<close>; the
  other members are numbered.\<close>

datatype CompressorType = CompressorNone | CompressorTool nat

text \<open>
  The persistent store behind \<^verbatim>\<open>AppSettings\<close>, one field for each \<^verbatim>\<open>SettingKey\<close>
  that the modelled functions read or write.
\<close>

record AppSettings =
  kSavingMethod :: SavingMethod
  kOutputFolder :: string
  kFilePrefix :: string
  kFileSuffix :: string
  kUseCompression :: bool
  kCompressor :: string
  kCompressionLevel :: int
  kCompressOnlySvgz :: bool
  kJobs :: int

subsection \<open>Output path of one file\<close>

text \<open>
  \<^verbatim>\<open>genOutputPath\<close> (mainwindow.cpp, lines 341-381). The \<^verbatim>\<open>SameFolder\<close> branch
  constructs an \<^verbatim>\<open>AppSettings\<close> object and reads the prefix and the suffix from the
  store; the store is the parameter \<open>settings\<close>.
\<close>

definition genOutputPath ::
  "QtPaths \<Rightarrow> AppSettings \<Rightarrow> string \<Rightarrow> string \<Rightarrow> string \<Rightarrow> SavingMethod \<Rightarrow> string" where
  "genOutputPath qt settings outFolder rootFolder path method =
     (let outPath =
        (case method of
           SelectFolder \<Rightarrow>
             (if rootFolder = []
              then outFolder @ [separator qt] @ fileName qt path
              else outFolder @ [separator qt] @ dirName qt rootFolder
                     @ [separator qt] @ relativeFilePath qt rootFolder path)
         | SameFolder \<Rightarrow>
             absolutePath qt path @ [separator qt] @ kFilePrefix settings
               @ completeBaseName qt path @ kFileSuffix settings @ ''.svg''
         | Overwrite \<Rightarrow> path)
      in if endsWith outPath (CHR ''z'') \<or> endsWith outPath (CHR ''Z'')
         then chop 1 outPath else outPath)"

subsection \<open>The file tree\<close>

text \<open>\<^verbatim>\<open>Qt::CheckState\<close>.\<close>

datatype CheckState = Unchecked | PartiallyChecked | Checked

text \<open>Modelled from the spec: the \<^verbatim>\<open>Status\<close> enumeration is declared in another
  header of the application; the data model names its members Pending, Ok, Warning and Error.\<close>

datatype Status = Pending | Ok | Warning | Error

text \<open>
  Modelled from the spec: the class \<^verbatim>\<open>TreeItem\<close> is declared in another header
  of the application. The data model gives it a path, an enabled flag, a tri-state checked state, a
  folder flag, a status with its text, the sizes before and after, the compression
  ratio, the output path and the list of children. The accessors used by
  mainwindow.cpp are \<^verbatim>\<open>data().path\<close>, \<^verbatim>\<open>isEnabled()\<close>, \<^verbatim>\<open>checkState()\<close>,
  \<^verbatim>\<open>isFolder()\<close> and \<^verbatim>\<open>childrenList()\<close>.

  A \<^verbatim>\<open>TreeItem *\<close> is an address. The child structure, which none of the modelled
  functions changes, is a tree of addresses; the fields of the items live in a store
  from addresses to field records, which the functions read and update.
\<close>

type_synonym item_ptr = nat

record ItemFields =
  path :: string
  isEnabled :: bool
  checkState :: CheckState
  isFolder :: bool
  status :: Status
  statusText :: string
  sizeBefore :: int
  sizeAfter :: int
  ratio :: real
  outPath :: string

datatype TreeItem = TreeItem (ptr: item_ptr) (childrenList: "TreeItem list")

type_synonym store = "item_ptr \<Rightarrow> ItemFields"

text \<open>Modelled from the spec: the mutation hooks of \<^verbatim>\<open>TreeItem\<close>
  (\<^verbatim>\<open>setStatus\<close>, \<^verbatim>\<open>setStatusText\<close>, \<^verbatim>\<open>setSizeBefore\<close>, \<^verbatim>\<open>setSizeAfter\<close>,
  \<^verbatim>\<open>setRatio\<close>, \<^verbatim>\<open>setOutputPath\<close>) each assign one field of the item.\<close>

definition setStatus :: "item_ptr \<Rightarrow> Status \<Rightarrow> store \<Rightarrow> store" where
  "setStatus item v st = st(item := (st item)\<lparr>status := v\<rparr>)"

definition setStatusText :: "item_ptr \<Rightarrow> string \<Rightarrow> store \<Rightarrow> store" where
  "setStatusText item v st = st(item := (st item)\<lparr>statusText := v\<rparr>)"

definition setSizeBefore :: "item_ptr \<Rightarrow> int \<Rightarrow> store \<Rightarrow> store" where
  "setSizeBefore item v st = st(item := (st item)\<lparr>sizeBefore := v\<rparr>)"

definition setSizeAfter :: "item_ptr \<Rightarrow> int \<Rightarrow> store \<Rightarrow> store" where
  "setSizeAfter item v st = st(item := (st item)\<lparr>sizeAfter := v\<rparr>)"

definition setRatio :: "item_ptr \<Rightarrow> real \<Rightarrow> store \<Rightarrow> store" where
  "setRatio item v st = st(item := (st item)\<lparr>ratio := v\<rparr>)"

definition setOutputPath :: "item_ptr \<Rightarrow> string \<Rightarrow> store \<Rightarrow> store" where
  "setOutputPath item v st = st(item := (st item)\<lparr>outPath := v\<rparr>)"

subsection \<open>Jobs\<close>

text \<open>
  Modelled from the spec: \<^verbatim>\<open>Task::Config\<close> is declared in another header of the
  application. It
  holds the input path, the output path, the back-reference to the tree item, and the
  copies of the cleaning arguments, compressor type, compression level and the
  compress-only-if-compressed flag.
\<close>

record Config =
  inputPath :: string
  outputPath :: string
  treeItem :: item_ptr
  args :: "string list"
  compressorType :: CompressorType
  compressionLevel :: int
  compressOnlySvgz :: bool

text \<open>Modelled from the spec: the default-constructed \<^verbatim>\<open>Task::Config conf;\<close>.
  \<^verbatim>\<open>genCleanData\<close> assigns the first three members and \<^verbatim>\<open>onStart\<close> assigns the
  other four for every job before dispatch, so the initial values are never observed.\<close>

definition defaultConfig :: Config where
  "defaultConfig = \<lparr> inputPath = [], outputPath = [], treeItem = 0, args = [],
       compressorType = CompressorNone, compressionLevel = 0, compressOnlySvgz = False \<rparr>"

subsection \<open>Building the job list\<close>

text \<open>
  \<^verbatim>\<open>genCleanData\<close> (lines 383-407). The reference parameters \<^verbatim>\<open>rootFolder\<close> and
  \<^verbatim>\<open>data\<close> are passed in and returned. \<open>genCleanItems\<close> is the body of the
  \<^verbatim>\<open>for\<close> loop over \<^verbatim>\<open>root->childrenList()\<close>.
\<close>

fun genCleanData ::
    "QtPaths \<Rightarrow> AppSettings \<Rightarrow> store \<Rightarrow> TreeItem \<Rightarrow> SavingMethod \<Rightarrow> string \<Rightarrow>
     string \<Rightarrow> Config list \<Rightarrow> string \<times> Config list"
  and genCleanItems ::
    "QtPaths \<Rightarrow> AppSettings \<Rightarrow> store \<Rightarrow> TreeItem list \<Rightarrow> SavingMethod \<Rightarrow> string \<Rightarrow>
     string \<Rightarrow> Config list \<Rightarrow> string \<times> Config list"
where
  "genCleanData qt settings st (TreeItem p children) method outFolder rootFolder data =
     genCleanItems qt settings st children method outFolder rootFolder data"
| "genCleanItems qt settings st [] method outFolder rootFolder data = (rootFolder, data)"
| "genCleanItems qt settings st (item # rest) method outFolder rootFolder data =
     (if \<not> isEnabled (st (ptr item)) \<or> checkState (st (ptr item)) \<noteq> Checked
      then genCleanItems qt settings st rest method outFolder rootFolder data
      else if isFolder (st (ptr item))
      then
        (case genCleanData qt settings st item method outFolder
                (if rootFolder = [] then path (st (ptr item)) else rootFolder) data of
           (rootFolder', data') \<Rightarrow>
             genCleanItems qt settings st rest method outFolder rootFolder' data')
      else
        genCleanItems qt settings st rest method outFolder rootFolder
          (data @ [defaultConfig\<lparr> inputPath := path (st (ptr item)),
                     outputPath := genOutputPath qt settings outFolder rootFolder
                                     (path (st (ptr item))) method,
                     treeItem := ptr item \<rparr>]))"

subsection \<open>Resetting the tree before a run\<close>

text \<open>
  What \<^verbatim>\<open>onStart\<close> and \<^verbatim>\<open>resetTreeData\<close> read from outside the window: the path
  helpers, the file system (\<^verbatim>\<open>QFileInfo(p).isDir()\<close>, \<^verbatim>\<open>QFileInfo(p).exists()\<close>,
  \<^verbatim>\<open>QFile(p).size()\<close>), the compressor found by \<^verbatim>\<open>Compressor::fromName\<close> (its
  \<^verbatim>\<open>type()\<close> and \<^verbatim>\<open>isAvailable()\<close>), the arguments of \<^verbatim>\<open>CleanerOptions::genArgs()\<close>,
  and the method \<^verbatim>\<open>TreeItem::resetCleanerData()\<close>, whose body is in another file of
  the application: it is a parameter, a function on the fields of one item.
\<close>

record Env =
  qtPaths :: QtPaths
  isDir :: "string \<Rightarrow> bool"
  pathExists :: "string \<Rightarrow> bool"
  fileSize :: "string \<Rightarrow> int"
  compressorTypeOf :: "string \<Rightarrow> CompressorType"
  compressorIsAvailable :: "string \<Rightarrow> bool"
  genArgs :: "string list"
  resetCleanerData :: "ItemFields \<Rightarrow> ItemFields"

text \<open>\<^verbatim>\<open>resetTreeData\<close> (lines 409-424); \<open>resetTreeItems\<close> is the loop body. The
  argument \<^verbatim>\<open>m_model\<close> is used for the view refresh only.\<close>

fun resetTreeData :: "Env \<Rightarrow> TreeItem \<Rightarrow> bool \<Rightarrow> store \<Rightarrow> store"
  and resetTreeItems :: "Env \<Rightarrow> TreeItem list \<Rightarrow> bool \<Rightarrow> store \<Rightarrow> store"
where
  "resetTreeData env (TreeItem p children) isOverwriteMode st =
     resetTreeItems env children isOverwriteMode st"
| "resetTreeItems env [] isOverwriteMode st = st"
| "resetTreeItems env (item # rest) isOverwriteMode st =
     (if isFolder (st (ptr item))
      then resetTreeItems env rest isOverwriteMode (resetTreeData env item isOverwriteMode st)
      else
        (let st1 = (if isOverwriteMode
                    then setSizeBefore (ptr item) (fileSize env (path (st (ptr item)))) st
                    else st);
             st2 = st1(ptr item := resetCleanerData env (st1 (ptr item)))
         in resetTreeItems env rest isOverwriteMode st2))"

subsection \<open>Start\<close>

text \<open>
  The part of the window that \<^verbatim>\<open>onStart\<close> reads and changes: whether the watcher is
  paused, the two line edits, the settings store, the root item of the model and the
  fields of the items.
\<close>

record MainWindow =
  isPaused :: bool
  lineEditFilePrefix :: string
  lineEditFileSuffix :: string
  appSettings :: AppSettings
  rootItem :: TreeItem
  items :: store

text \<open>\<^verbatim>\<open>MainWindow::saveSettings\<close> (lines 161-167); the window size is left out.\<close>

definition saveSettings :: "MainWindow \<Rightarrow> MainWindow" where
  "saveSettings w =
     w\<lparr>appSettings := (appSettings w)\<lparr>kFilePrefix := lineEditFilePrefix w,
                                       kFileSuffix := lineEditFileSuffix w\<rparr>\<rparr>"

text \<open>Each warning box followed by \<^verbatim>\<open>return\<close> is one error.\<close>

datatype StartError =
    InvalidOutputFolder
  | NoPrefixOrSuffix
  | CompressorNotFound
  | NoFilesSelected
  | DuplicateFile string

text \<open>\<open>Dispatched data\<close>: the call \<^verbatim>\<open>QtConcurrent::mapped(data, &Task::cleanFile)\<close>
  was reached with this job list.\<close>

datatype StartOutcome = Resumed | Rejected StartError | Dispatched "Config list"

text \<open>The loop of lines 492-505 over the job list, with the \<^verbatim>\<open>QSet\<close> of the paths
  seen so far; the result is \<^verbatim>\<open>duplFile\<close>, empty when the loop ends without
  \<^verbatim>\<open>break\<close>.\<close>

fun findDuplFile :: "Config list \<Rightarrow> string set \<Rightarrow> string" where
  "findDuplFile [] seen = []"
| "findDuplFile (t # ts) seen =
     (let p = (if endsWith (inputPath t) (CHR ''z'') \<or> endsWith (inputPath t) (CHR ''Z'')
               then chop 1 (inputPath t) else inputPath t)
      in if p \<in> seen then p else findDuplFile ts (insert p seen))"

text \<open>\<^verbatim>\<open>MainWindow::onStart\<close> (lines 426-532).\<close>

definition onStart :: "Env \<Rightarrow> MainWindow \<Rightarrow> StartOutcome \<times> MainWindow" where
  "onStart env w0 =
     (if isPaused w0 then (Resumed, w0\<lparr>isPaused := False\<rparr>)
      else
        (let w = saveSettings w0;
             settings = appSettings w;
             method = kSavingMethod settings;
             outFolder = kOutputFolder settings
         in
           if method = SelectFolder \<and>
              (outFolder = [] \<or> \<not> isDir env outFolder \<or> \<not> pathExists env outFolder)
           then (Rejected InvalidOutputFolder, w)
           else if method = SameFolder \<and>
                   lineEditFilePrefix w = [] \<and> lineEditFileSuffix w = []
           then (Rejected NoPrefixOrSuffix, w)
           else
             (let compressorType' =
                    (if kUseCompression settings
                     then compressorTypeOf env (kCompressor settings) else CompressorNone)
              in
                if kUseCompression settings \<and> compressorType' \<noteq> CompressorNone \<and>
                   \<not> compressorIsAvailable env (kCompressor settings)
                then (Rejected CompressorNotFound, w)
                else
                  (let st = resetTreeData env (rootItem w) (method = Overwrite) (items w);
                       w1 = w\<lparr>items := st\<rparr>;
                       data = snd (genCleanData (qtPaths env) settings st (rootItem w)
                                     method outFolder [] [])
                   in
                     if data = [] then (Rejected NoFilesSelected, w1)
                     else
                       (let duplFile = findDuplFile data {}
                        in
                          if duplFile \<noteq> [] then (Rejected (DuplicateFile duplFile), w1)
                          else
                            (Dispatched
                               (map (\<lambda>conf. conf\<lparr> args := genArgs env,
                                       compressorType := compressorType',
                                       compressionLevel := kCompressionLevel settings,
                                       compressOnlySvgz := kCompressOnlySvgz settings \<rparr>)
                                  data), w1))))))"

subsection \<open>Receiving results\<close>

text \<open>
  Modelled from the spec: \<^verbatim>\<open>Task::Output\<close> is declared in another header of the
  application. A result carries its kind, the back-reference to the tree item, and on
  success the size, ratio and output path, or on failure or warning a message. The
  accessors used are \<^verbatim>\<open>type()\<close>, \<^verbatim>\<open>item()\<close>, \<^verbatim>\<open>errorMsg()\<close>, \<^verbatim>\<open>okData()\<close> (with
  members \<^verbatim>\<open>outSize\<close>, \<^verbatim>\<open>ratio\<close>, \<^verbatim>\<open>outputPath\<close>) and \<^verbatim>\<open>warningMsg()\<close>.
\<close>

record OkData =
  okOutSize :: int
  okRatio :: real
  okOutputPath :: string

record Output =
  type :: Status
  item :: item_ptr
  errorMsg :: string
  okData :: OkData
  warningMsg :: string

text \<open>\<^verbatim>\<open>Q_UNREACHABLE()\<close> in the last branch.\<close>

datatype Fault = Unreachable

text \<open>\<^verbatim>\<open>MainWindow::onResultReadyAt\<close> (lines 547-579), on the fields of the items;
  \<open>res\<close> is \<^verbatim>\<open>m_cleaningWatcher->resultAt(idx)\<close>.\<close>

definition onResultReadyAt :: "store \<Rightarrow> Output \<Rightarrow> Fault + store" where
  "onResultReadyAt st res =
     (if type res = Error
      then Inr (setStatusText (item res) (errorMsg res) (setStatus (item res) Error st))
      else
        (let d = okData res;
             st1 = setOutputPath (item res) (okOutputPath d)
                     (setRatio (item res) (okRatio d)
                        (setSizeAfter (item res) (okOutSize d)
                           (setStatus (item res) Ok st)))
         in
           if type res = Ok then Inr (setStatus (item res) Ok st1)
           else if type res = Warning
           then Inr (setStatusText (item res) (warningMsg res)
                       (setStatus (item res) Warning st1))
           else Inl Unreachable))"

text \<open>The signal \<^verbatim>\<open>resultReadyAt\<close> is connected to the slot (lines 152-153), so the slot
  runs once for each result, in the order of arrival.\<close>

fun deliverAll :: "store \<Rightarrow> Output list \<Rightarrow> Fault + store" where
  "deliverAll st [] = Inr st"
| "deliverAll st (r # rs) =
     (case onResultReadyAt st r of Inl f \<Rightarrow> Inl f | Inr st' \<Rightarrow> deliverAll st' rs)"

subsection \<open>Definitions used to state the properties\<close>

text \<open>Stripping of one trailing \<open>z\<close> or \<open>Z\<close>, as the specification words it.\<close>

definition spec_stripSvgz :: "string \<Rightarrow> string" where
  "spec_stripSvgz s =
     (if s \<noteq> [] \<and> (last s = CHR ''z'' \<or> last s = CHR ''Z'') then butlast s else s)"

text \<open>
  The file nodes for which the traversal of \<^verbatim>\<open>genCleanData\<close> makes a job, in the
  order of the traversal: a node that is disabled or not fully checked contributes
  nothing, whether it is a file or a folder; a selected folder contributes what its
  children contribute; a selected file contributes itself.
\<close>

fun selectedFiles :: "store \<Rightarrow> TreeItem list \<Rightarrow> item_ptr list" where
  "selectedFiles st [] = []"
| "selectedFiles st (TreeItem p children # rest) =
     (if \<not> isEnabled (st p) \<or> checkState (st p) \<noteq> Checked then []
      else if isFolder (st p) then selectedFiles st children
      else [p]) @ selectedFiles st rest"

text \<open>
  The same list as the specification words it: every enabled, checked, non-folder node
  reachable in the tree, where the state of a folder does not gate the descent into its
  children.
\<close>

fun spec_selectedFiles :: "store \<Rightarrow> TreeItem list \<Rightarrow> item_ptr list" where
  "spec_selectedFiles st [] = []"
| "spec_selectedFiles st (TreeItem p children # rest) =
     (if isFolder (st p) then spec_selectedFiles st children
      else if isEnabled (st p) \<and> checkState (st p) = Checked then [p]
      else []) @ spec_selectedFiles st rest"

text \<open>The job that the \<^verbatim>\<open>else\<close> branch of \<^verbatim>\<open>genCleanData\<close> appends for the
  file node \<open>p\<close> while the root folder is \<open>rootFolder\<close>.\<close>

definition jobFor ::
  "QtPaths \<Rightarrow> AppSettings \<Rightarrow> store \<Rightarrow> SavingMethod \<Rightarrow> string \<Rightarrow> string \<Rightarrow> item_ptr
   \<Rightarrow> Config" where
  "jobFor qt settings st method outFolder rootFolder p =
     defaultConfig\<lparr> inputPath := path (st p),
       outputPath := genOutputPath qt settings outFolder rootFolder (path (st p)) method,
       treeItem := p \<rparr>"

text \<open>The fields of the items after \<^verbatim>\<open>resetTreeData\<close> has run in \<^verbatim>\<open>onStart\<close>
  (line 474), and the job list that \<^verbatim>\<open>onStart\<close> builds from them (lines 476-478).\<close>

definition resetStore :: "Env \<Rightarrow> MainWindow \<Rightarrow> store" where
  "resetStore env w =
     resetTreeData env (rootItem w) (kSavingMethod (appSettings w) = Overwrite) (items w)"

definition builtJobs :: "Env \<Rightarrow> MainWindow \<Rightarrow> Config list" where
  "builtJobs env w =
     snd (genCleanData (qtPaths env) (appSettings (saveSettings w)) (resetStore env w)
            (rootItem w) (kSavingMethod (appSettings w)) (kOutputFolder (appSettings w))
            [] [])"

text \<open>The jobs handed to the dispatcher; none unless the outcome is a dispatch.\<close>

fun dispatchedJobs :: "StartOutcome \<Rightarrow> Config list" where
  "dispatchedJobs (Dispatched js) = js"
| "dispatchedJobs _ = []"

text \<open>The addresses of all nodes of a list of subtrees.\<close>

fun allPtrs :: "TreeItem list \<Rightarrow> item_ptr list" where
  "allPtrs [] = []"
| "allPtrs (TreeItem p children # rest) = p # allPtrs children @ allPtrs rest"

text \<open>The nodes that \<^verbatim>\<open>resetTreeData\<close> resets: it descends into every folder,
  whatever its flags, and resets every node that is not a folder.\<close>

fun filePtrs :: "store \<Rightarrow> TreeItem list \<Rightarrow> item_ptr list" where
  "filePtrs st [] = []"
| "filePtrs st (TreeItem p children # rest) =
     (if isFolder (st p) then filePtrs st children else [p]) @ filePtrs st rest"

text \<open>What \<^verbatim>\<open>resetTreeData\<close> does to the fields of one file node.\<close>

definition resetOne :: "Env \<Rightarrow> bool \<Rightarrow> ItemFields \<Rightarrow> ItemFields" where
  "resetOne env isOverwriteMode f =
     resetCleanerData env
       (if isOverwriteMode then f\<lparr>sizeBefore := fileSize env (path f)\<rparr> else f)"

text \<open>The statuses that a delivered result leaves behind.\<close>

definition terminal :: "Status \<Rightarrow> bool" where
  "terminal s = (s = Ok \<or> s = Warning \<or> s = Error)"

subsection \<open>Concrete inputs\<close>

definition exampleSettings :: AppSettings where
  "exampleSettings = \<lparr> kSavingMethod = SelectFolder, kOutputFolder = ''/out'',
       kFilePrefix = ''pre_'', kFileSuffix = [], kUseCompression = False,
       kCompressor = [], kCompressionLevel = 0, kCompressOnlySvgz = False, kJobs = 1 \<rparr>"

definition mkItem :: "string \<Rightarrow> bool \<Rightarrow> bool \<Rightarrow> CheckState \<Rightarrow> ItemFields" where
  "mkItem p folder enabled checked =
     \<lparr> path = p, isEnabled = enabled, checkState = checked, isFolder = folder,
       status = Pending, statusText = [], sizeBefore = 0, sizeAfter = 0, ratio = 0,
       outPath = [] \<rparr>"

text \<open>A root with one enabled but unchecked folder \<open>/d\<close> that holds one enabled,
  checked file.\<close>

definition uncheckedFolderStore :: store where
  "uncheckedFolderStore =
     (\<lambda>_. mkItem [] True True Checked)
       (1 := mkItem ''/d'' True True Unchecked,
        2 := mkItem ''/d/a.svg'' False True Checked)"

definition uncheckedFolderTree :: TreeItem where
  "uncheckedFolderTree = TreeItem 0 [TreeItem 1 [TreeItem 2 []]]"



text \<open>An instance of the environment: a reset that clears the status, its text, the
  size after, the ratio and the output path; a file system where \<open>/out\<close> is the
  only directory and every file has 100 bytes; no compressor.\<close>

definition exampleReset :: "ItemFields \<Rightarrow> ItemFields" where
  "exampleReset f = f\<lparr>status := Pending, statusText := [], sizeAfter := 0, ratio := 0,
                       outPath := []\<rparr>"

definition exampleEnv :: Env where
  "exampleEnv = \<lparr> qtPaths = unixQt, isDir = (\<lambda>p. p = ''/out''),
       pathExists = (\<lambda>p. p = ''/out''), fileSize = (\<lambda>p. 100),
       compressorTypeOf = (\<lambda>n. CompressorNone), compressorIsAvailable = (\<lambda>n. False),
       genArgs = [], resetCleanerData = exampleReset \<rparr>"

text \<open>A root with two enabled, checked files.\<close>

definition twoFilesTree :: TreeItem where
  "twoFilesTree = TreeItem 0 [TreeItem 1 [], TreeItem 2 []]"

definition twoFilesStore :: "string \<Rightarrow> string \<Rightarrow> store" where
  "twoFilesStore a b =
     (\<lambda>_. mkItem [] True True Checked)
       (1 := mkItem a False True Checked, 2 := mkItem b False True Checked)"

text \<open>A window that is not paused, with prefix \<open>pre_\<close>, output folder \<open>/out\<close>
  and the given policy, tree and items.\<close>

definition mkWindow :: "SavingMethod \<Rightarrow> TreeItem \<Rightarrow> store \<Rightarrow> MainWindow" where
  "mkWindow policy rt st =
     \<lparr> isPaused = False, lineEditFilePrefix = ''pre_'', lineEditFileSuffix = [],
       appSettings = exampleSettings\<lparr>kSavingMethod := policy\<rparr>,
       rootItem = rt, items = st \<rparr>"

text \<open>A root with one file that a previous run has cleaned and that the user has
  unchecked since.\<close>

definition cleanedStore :: store where
  "cleanedStore =
     (\<lambda>_. mkItem [] True True Checked)
       (1 := (mkItem ''/a/x.svg'' False True Unchecked)
               \<lparr>status := Ok, sizeBefore := 250, sizeAfter := 40, ratio := 84,
                 outPath := ''/a/x.svg''\<rparr>)"

definition oneFileTree :: TreeItem where
  "oneFileTree = TreeItem 0 [TreeItem 1 []]"

text \<open>Two results: an error for item 1 and a success for item 2.\<close>

definition errorResult :: Output where
  "errorResult = \<lparr> type = Error, item = 1, errorMsg = ''parse error'',
       okData = \<lparr> okOutSize = 0, okRatio = 0, okOutputPath = [] \<rparr>, warningMsg = [] \<rparr>"

definition okResult :: Output where
  "okResult = \<lparr> type = Ok, item = 2, errorMsg = [],
       okData = \<lparr> okOutSize = 40, okRatio = 84, okOutputPath = ''/a/y.svg'' \<rparr>,
       warningMsg = [] \<rparr>"



section \<open>Properties\<close>

subsection \<open>Output paths\<close>

lemma endsWith_last: "endsWith s c = (s \<noteq> [] \<and> last s = c)"
  by (cases s rule: rev_cases) (simp_all add: endsWith_def)

lemma strip_conv:
  "(if endsWith s (CHR ''z'') \<or> endsWith s (CHR ''Z'') then chop 1 s else s) =
   spec_stripSvgz s"
  by (simp add: spec_stripSvgz_def endsWith_last chop_def butlast_conv_take)

lemma genOutputPath_stripSvgz:
  "genOutputPath qt settings outFolder rootFolder file method =
     spec_stripSvgz
       (case method of
          SelectFolder \<Rightarrow>
            (if rootFolder = []
             then outFolder @ [separator qt] @ fileName qt file
             else outFolder @ [separator qt] @ dirName qt rootFolder
                    @ [separator qt] @ relativeFilePath qt rootFolder file)
        | SameFolder \<Rightarrow>
            absolutePath qt file @ [separator qt] @ kFilePrefix settings
              @ completeBaseName qt file @ kFileSuffix settings @ ''.svg''
        | Overwrite \<Rightarrow> file)"
  unfolding genOutputPath_def Let_def strip_conv by (rule refl)

text \<open>
  C5. Under the same-folder policy the output path is the directory of the input file,
  the separator, the prefix from the settings, the complete base name of the input file
  (its last extension removed), the suffix from the settings and \<open>.svg\<close>. With the
  prefix \<open>pre_\<close> and an empty suffix, \<open>/a/b.svgz\<close> gives \<open>/a/pre_b.svg\<close>.
\<close>

theorem genOutputPath_SameFolder:
  "genOutputPath qt settings outFolder rootFolder file SameFolder =
     absolutePath qt file @ [separator qt] @ kFilePrefix settings
       @ completeBaseName qt file @ kFileSuffix settings @ ''.svg''
   \<and> genOutputPath unixQt (settings\<lparr>kFilePrefix := ''pre_'', kFileSuffix := []\<rparr>)
         outFolder rootFolder ''/a/b.svgz'' SameFolder = ''/a/pre_b.svg''"
proof
  show "genOutputPath qt settings outFolder rootFolder file SameFolder =
     absolutePath qt file @ [separator qt] @ kFilePrefix settings
       @ completeBaseName qt file @ kFileSuffix settings @ ''.svg''"
    by (simp add: genOutputPath_stripSvgz spec_stripSvgz_def)
  show "genOutputPath unixQt (settings\<lparr>kFilePrefix := ''pre_'', kFileSuffix := []\<rparr>)
         outFolder rootFolder ''/a/b.svgz'' SameFolder = ''/a/pre_b.svg''"
    by (simp add: genOutputPath_stripSvgz spec_stripSvgz_def unixQt_def
        unix_absolutePath_def unix_completeBaseName_def unix_fileName_def)
qed

text \<open>
  C6. For each of the three policies the result is the path computed by the policy with
  one trailing \<open>z\<close> or \<open>Z\<close> removed when there is one, and unchanged otherwise.
  Under the overwrite policy the computed path is the input path, so \<open>/a/b.svg\<close> is
  its own output path.
\<close>

theorem genOutputPath_strips_trailing_z:
  "genOutputPath qt settings outFolder [] file SelectFolder =
     spec_stripSvgz (outFolder @ [separator qt] @ fileName qt file)
   \<and> genOutputPath qt settings outFolder (c # rootFolder) file SelectFolder =
     spec_stripSvgz (outFolder @ [separator qt] @ dirName qt (c # rootFolder)
                       @ [separator qt] @ relativeFilePath qt (c # rootFolder) file)
   \<and> genOutputPath qt settings outFolder rootFolder file SameFolder =
     spec_stripSvgz (absolutePath qt file @ [separator qt] @ kFilePrefix settings
       @ completeBaseName qt file @ kFileSuffix settings @ ''.svg'')
   \<and> genOutputPath qt settings outFolder rootFolder file Overwrite = spec_stripSvgz file
   \<and> spec_stripSvgz (xs @ ''z'') = xs \<and> spec_stripSvgz (xs @ ''Z'') = xs
   \<and> spec_stripSvgz file =
       (if file \<noteq> [] \<and> (last file = CHR ''z'' \<or> last file = CHR ''Z'')
        then butlast file else file)
   \<and> genOutputPath qt settings outFolder rootFolder ''/a/b.svg'' Overwrite = ''/a/b.svg''"
  by (simp add: genOutputPath_stripSvgz) (simp add: spec_stripSvgz_def)

text \<open>
  C9. The output path is a function of the policy, the output folder, the root folder,
  the input path, and the prefix and suffix held in the settings: two settings stores
  that agree on the prefix and the suffix give the same output path, whatever their
  other keys hold. (The path helpers of the toolkit are functions of their string
  arguments.)
\<close>

theorem genOutputPath_depends_only_on_inputs:
  assumes "kFilePrefix s1 = kFilePrefix s2" and "kFileSuffix s1 = kFileSuffix s2"
  shows "genOutputPath qt s1 outFolder rootFolder file method =
         genOutputPath qt s2 outFolder rootFolder file method"
  using assms by (cases "method") (simp_all add: genOutputPath_def)

theorem genOutputPath_depends_only_on_inputs_witness:
  "exampleSettings \<noteq> exampleSettings\<lparr>kOutputFolder := ''/elsewhere'', kJobs := 8\<rparr>
   \<and> genOutputPath unixQt exampleSettings ''/out'' [] ''/a/b.svgz'' SameFolder =
     genOutputPath unixQt (exampleSettings\<lparr>kOutputFolder := ''/elsewhere'', kJobs := 8\<rparr>)
       ''/out'' [] ''/a/b.svgz'' SameFolder
   \<and> genOutputPath unixQt exampleSettings ''/out'' [] ''/a/b.svgz'' SameFolder =
     ''/a/pre_b.svg''"
proof -
  have p: "kFilePrefix exampleSettings =
           kFilePrefix (exampleSettings\<lparr>kOutputFolder := ''/elsewhere'', kJobs := 8\<rparr>)"
    by simp
  have q: "kFileSuffix exampleSettings =
           kFileSuffix (exampleSettings\<lparr>kOutputFolder := ''/elsewhere'', kJobs := 8\<rparr>)"
    by simp
  have d: "exampleSettings \<noteq> exampleSettings\<lparr>kOutputFolder := ''/elsewhere'', kJobs := 8\<rparr>"
    by (simp add: exampleSettings_def)
  have v: "genOutputPath unixQt exampleSettings ''/out'' [] ''/a/b.svgz'' SameFolder =
     ''/a/pre_b.svg''"
    by (simp add: genOutputPath_stripSvgz spec_stripSvgz_def unixQt_def exampleSettings_def
        unix_absolutePath_def unix_completeBaseName_def unix_fileName_def)
  from genOutputPath_depends_only_on_inputs [OF p q, of unixQt "''/out''" "[]"
      "''/a/b.svgz''" SameFolder] d v
  show ?thesis by simp
qed

subsection \<open>The traversal that builds the job list\<close>

lemma genCleanItems_skip:
  "\<not> isEnabled (st (ptr it)) \<or> checkState (st (ptr it)) \<noteq> Checked \<Longrightarrow>
   genCleanItems qt settings st (it # rest) m outFolder rootFolder data =
   genCleanItems qt settings st rest m outFolder rootFolder data"
  by simp

lemma genCleanItems_folder:
  "isEnabled (st (ptr it)) \<Longrightarrow> checkState (st (ptr it)) = Checked \<Longrightarrow>
   isFolder (st (ptr it)) \<Longrightarrow>
   genCleanData qt settings st it m outFolder
      (if rootFolder = [] then path (st (ptr it)) else rootFolder) data = (rf', d') \<Longrightarrow>
   genCleanItems qt settings st (it # rest) m outFolder rootFolder data =
   genCleanItems qt settings st rest m outFolder rf' d'"
  by simp

lemma genCleanItems_file:
  "isEnabled (st (ptr it)) \<Longrightarrow> checkState (st (ptr it)) = Checked \<Longrightarrow>
   \<not> isFolder (st (ptr it)) \<Longrightarrow>
   genCleanItems qt settings st (it # rest) m outFolder rootFolder data =
   genCleanItems qt settings st rest m outFolder rootFolder
     (data @ [jobFor qt settings st m outFolder rootFolder (ptr it)])"
  by (simp add: jobFor_def)

lemma genClean_keys:
  "map (\<lambda>c. (treeItem c, inputPath c))
       (snd (genCleanData qt settings st rt m outFolder rootFolder data)) =
     map (\<lambda>c. (treeItem c, inputPath c)) data @
     map (\<lambda>p. (p, path (st p))) (selectedFiles st (childrenList rt))"
  "map (\<lambda>c. (treeItem c, inputPath c))
       (snd (genCleanItems qt settings st its m outFolder rootFolder data)) =
     map (\<lambda>c. (treeItem c, inputPath c)) data @
     map (\<lambda>p. (p, path (st p))) (selectedFiles st its)"
proof (induction qt settings st rt m outFolder rootFolder data
         and qt settings st its m outFolder rootFolder data
       rule: genCleanData_genCleanItems.induct)
  case (1 qt settings st p children m outFolder rootFolder data)
  then show ?case by simp
next
  case (2 qt settings st m outFolder rootFolder data)
  then show ?case by simp
next
  case (3 qt settings st it rest m outFolder rootFolder data)
  obtain p cs where it: "it = TreeItem p cs" by (cases it)
  show ?case
  proof (cases "\<not> isEnabled (st (ptr it)) \<or> checkState (st (ptr it)) \<noteq> Checked")
    case True
    with 3(1) it show ?thesis by simp
  next
    case sel: False
    show ?thesis
    proof (cases "isFolder (st (ptr it))")
      case True
      obtain rf' d' where g: "genCleanData qt settings st it m outFolder
                (if rootFolder = [] then path (st (ptr it)) else rootFolder) data = (rf', d')"
        by (cases "genCleanData qt settings st it m outFolder
                (if rootFolder = [] then path (st (ptr it)) else rootFolder) data")
      from 3(2)[OF sel True] g
      have a: "map (\<lambda>c. (treeItem c, inputPath c)) d' =
          map (\<lambda>c. (treeItem c, inputPath c)) data @
          map (\<lambda>p. (p, path (st p))) (selectedFiles st (childrenList it))" by simp
      from 3(3)[OF sel True g[symmetric]]
      have b: "map (\<lambda>c. (treeItem c, inputPath c))
          (snd (genCleanItems qt settings st rest m outFolder rf' d')) =
          map (\<lambda>c. (treeItem c, inputPath c)) d' @
          map (\<lambda>p. (p, path (st p))) (selectedFiles st rest)" .
      from sel have e: "isEnabled (st (ptr it))" and c: "checkState (st (ptr it)) = Checked"
        by simp_all
      show ?thesis
        unfolding genCleanItems_folder[where st=st and it=it, OF e c True g] using a b it e c True by simp
    next
      case False
      from 3(4)[OF sel False] sel False it show ?thesis by simp
    qed
  qed
qed




text \<open>
  C1, as stated, fails: the guard at the head of the loop applies to folders as well as
  to files, so an enabled but unchecked folder is skipped with everything below it. In
  the tree below the file \<open>/d/a.svg\<close> is enabled, checked and not a folder, and it
  gets no job.
\<close>

theorem genCleanData_skips_unchecked_folder_counterexample:
  "map treeItem (snd (genCleanData unixQt exampleSettings uncheckedFolderStore
                        uncheckedFolderTree Overwrite [] [] [])) = []
   \<and> spec_selectedFiles uncheckedFolderStore (childrenList uncheckedFolderTree) = [2]
   \<and> isEnabled (uncheckedFolderStore 2) \<and> checkState (uncheckedFolderStore 2) = Checked
   \<and> \<not> isFolder (uncheckedFolderStore 2)"
  by (simp add: uncheckedFolderStore_def uncheckedFolderTree_def mkItem_def)

text \<open>
  C1, amended. The job list holds, in the order of the traversal, exactly one job for
  each file node that is enabled and fully checked and all of whose ancestor folders
  below the root are enabled and fully checked; the job carries the address and the
  path of its node. A folder that is disabled or not fully checked is skipped together
  with its subtree. The flags of the root itself are not read.
\<close>

theorem genCleanData_jobs:
  "map (\<lambda>c. (treeItem c, inputPath c))
       (snd (genCleanData qt settings st rt m outFolder rootFolder [])) =
     map (\<lambda>p. (p, path (st p))) (selectedFiles st (childrenList rt))"
  using genClean_keys(1) [of qt settings st rt m outFolder rootFolder "[]"] by simp






subsection \<open>Validation in Start\<close>

lemma nonempty_conv: "(\<forall>c \<in> set xs. f c \<noteq> []) = ([] \<notin> set (map f xs))"
  by (induction xs) auto

lemma onStart_Dispatched_eq:
  assumes "fst (onStart env w) = Dispatched jobs"
  shows "\<exists>a t l z. jobs = map (\<lambda>conf. conf\<lparr>args := a, compressorType := t,
                 compressionLevel := l, compressOnlySvgz := z\<rparr>) (builtJobs env w)"
    and "builtJobs env w \<noteq> []" and "findDuplFile (builtJobs env w) {} = []"
    and "items (snd (onStart env w)) = resetStore env w"
  using assms
  by (auto simp add: onStart_def Let_def builtJobs_def resetStore_def saveSettings_def
      split: if_splits)

lemma onStart_Dispatched:
  assumes "fst (onStart env w) = Dispatched jobs"
  shows "builtJobs env w \<noteq> []" and "findDuplFile (builtJobs env w) {} = []"
    and "map inputPath jobs = map inputPath (builtJobs env w)"
    and "map outputPath jobs = map outputPath (builtJobs env w)"
    and "map treeItem jobs = map treeItem (builtJobs env w)"
    and "items (snd (onStart env w)) = resetStore env w"
proof -
  from onStart_Dispatched_eq(1) [OF assms] obtain a t l z where
    j: "jobs = map (\<lambda>conf. conf\<lparr>args := a, compressorType := t,
                 compressionLevel := l, compressOnlySvgz := z\<rparr>) (builtJobs env w)"
    by blast
  show "map inputPath jobs = map inputPath (builtJobs env w)"
    and "map outputPath jobs = map outputPath (builtJobs env w)"
    and "map treeItem jobs = map treeItem (builtJobs env w)"
    unfolding j by (simp_all add: comp_def)
  show "builtJobs env w \<noteq> []" and "findDuplFile (builtJobs env w) {} = []"
    and "items (snd (onStart env w)) = resetStore env w"
    using onStart_Dispatched_eq(2,3,4) [OF assms] by simp_all
qed


lemma onStart_late_reject_store:
  assumes "fst (onStart env w) = Rejected e"
    and "e = NoFilesSelected \<or> e = DuplicateFile d"
  shows "items (snd (onStart env w)) = resetStore env w"
  using assms
  by (auto simp add: onStart_def Let_def resetStore_def saveSettings_def split: if_splits)

lemma findDuplFile_empty_iff:
  "\<forall>c \<in> set data. spec_stripSvgz (inputPath c) \<noteq> [] \<Longrightarrow>
   (findDuplFile data seen = []) =
   (distinct (map (\<lambda>c. spec_stripSvgz (inputPath c)) data) \<and>
    (\<forall>c \<in> set data. spec_stripSvgz (inputPath c) \<notin> seen))"
proof (induction data arbitrary: seen)
  case Nil
  show ?case by simp
next
  case (Cons t ts)
  from Cons.prems have ne: "spec_stripSvgz (inputPath t) \<noteq> []"
    and rest: "\<forall>c \<in> set ts. spec_stripSvgz (inputPath c) \<noteq> []" by simp_all
  show ?case
  proof (cases "spec_stripSvgz (inputPath t) \<in> seen")
    case True
    with ne show ?thesis by (simp add: strip_conv Let_def)
  next
    case False
    have step: "findDuplFile (t # ts) seen =
                findDuplFile ts (insert (spec_stripSvgz (inputPath t)) seen)"
      using False by (simp add: strip_conv Let_def)
    show ?thesis
      unfolding step Cons.IH [OF rest, of "insert (spec_stripSvgz (inputPath t)) seen"]
      using False by (simp add: image_iff) metis
  qed
qed

text \<open>
  The boundary of the precondition of \<open>findDuplFile_empty_iff\<close>: the loop returns the
  empty string both when it finds no duplicate and when the duplicate it finds is the
  empty string, which is what the input paths \<open>z\<close> and \<open>Z\<close> are stripped to.
\<close>

lemma findDuplFile_empty_duplicate:
  "findDuplFile [defaultConfig\<lparr>inputPath := ''z''\<rparr>, defaultConfig\<lparr>inputPath := ''Z''\<rparr>] {}
     = []"
  by (simp add: endsWith_def chop_def)

lemma genClean_invariant:
  "(\<And>rf p. P (jobFor qt settings st m outFolder rf p)) \<Longrightarrow> list_all P data \<Longrightarrow>
   list_all P (snd (genCleanData qt settings st rt m outFolder rootFolder data))"
  "(\<And>rf p. P (jobFor qt settings st m outFolder rf p)) \<Longrightarrow> list_all P data \<Longrightarrow>
   list_all P (snd (genCleanItems qt settings st its m outFolder rootFolder data))"
proof (induction qt settings st rt m outFolder rootFolder data
         and qt settings st its m outFolder rootFolder data
       rule: genCleanData_genCleanItems.induct)
  case (1 qt settings st p children m outFolder rootFolder data)
  then show ?case by simp
next
  case (2 qt settings st m outFolder rootFolder data)
  then show ?case by simp
next
  case (3 qt settings st it rest m outFolder rootFolder data)
  note P = 3(5) and d = 3(6)
  show ?case
  proof (cases "\<not> isEnabled (st (ptr it)) \<or> checkState (st (ptr it)) \<noteq> Checked")
    case True
    from 3(1)[OF True P d] show ?thesis
      unfolding genCleanItems_skip[where st=st and it=it, OF True] .
  next
    case sel: False
    then have e: "isEnabled (st (ptr it))" and c: "checkState (st (ptr it)) = Checked"
      by simp_all
    show ?thesis
    proof (cases "isFolder (st (ptr it))")
      case True
      obtain rf' d' where g: "genCleanData qt settings st it m outFolder
                (if rootFolder = [] then path (st (ptr it)) else rootFolder) data = (rf', d')"
        by (cases "genCleanData qt settings st it m outFolder
                (if rootFolder = [] then path (st (ptr it)) else rootFolder) data")
      from 3(2)[OF sel True P d] g have d': "list_all P d'" by simp
      from 3(3)[OF sel True g[symmetric] P d'] show ?thesis
        unfolding genCleanItems_folder[where st=st and it=it, OF e c True g] .
    next
      case False
      from P d have "list_all P (data @ [jobFor qt settings st m outFolder rootFolder (ptr it)])"
        by simp
      then have "list_all P
         (data @ [defaultConfig\<lparr>inputPath := path (st (ptr it)),
              outputPath := genOutputPath qt settings outFolder rootFolder (path (st (ptr it))) m,
              treeItem := ptr it\<rparr>])" by (simp add: jobFor_def)
      from 3(4)[OF sel False P this] show ?thesis
        unfolding genCleanItems_file[where st=st and it=it, OF e c False]
        by (simp add: jobFor_def)
    qed
  qed
qed

lemma builtJobs_Overwrite:
  assumes "kSavingMethod (appSettings w) = Overwrite"
  shows "map outputPath (builtJobs env w) =
         map (\<lambda>c. spec_stripSvgz (inputPath c)) (builtJobs env w)"
proof -
  have "list_all (\<lambda>c. outputPath c = spec_stripSvgz (inputPath c)) (builtJobs env w)"
    unfolding builtJobs_def assms
    by (rule genClean_invariant(1)) (simp_all add: jobFor_def genOutputPath_stripSvgz)
  then show ?thesis by (simp add: list_all_iff)
qed

lemmas ex_defs = exampleEnv_def mkWindow_def twoFilesTree_def twoFilesStore_def mkItem_def
  exampleSettings_def exampleReset_def saveSettings_def

lemmas path_defs = genOutputPath_stripSvgz spec_stripSvgz_def unixQt_def unix_dirName_def
        unix_fileName_def unix_relativeFilePath_def unix_absolutePath_def
        unix_completeBaseName_def endsWith_last chop_def

text \<open>
  C2, as stated, fails: two files with the same name from different directories, added
  one by one, pass the check and are dispatched to the same output path under the
  selected-folder policy.
\<close>

theorem onStart_output_collision_counterexample:
  "fst (onStart exampleEnv
          (mkWindow SelectFolder twoFilesTree (twoFilesStore ''/a/x.svg'' ''/b/x.svg''))) =
     Dispatched (dispatchedJobs (fst (onStart exampleEnv
          (mkWindow SelectFolder twoFilesTree (twoFilesStore ''/a/x.svg'' ''/b/x.svg'')))))
   \<and> map inputPath (dispatchedJobs (fst (onStart exampleEnv
          (mkWindow SelectFolder twoFilesTree (twoFilesStore ''/a/x.svg'' ''/b/x.svg''))))) =
     [''/a/x.svg'', ''/b/x.svg'']
   \<and> map outputPath (dispatchedJobs (fst (onStart exampleEnv
          (mkWindow SelectFolder twoFilesTree (twoFilesStore ''/a/x.svg'' ''/b/x.svg''))))) =
     [''/out/x.svg'', ''/out/x.svg'']"
  by (simp add: onStart_def Let_def ex_defs setSizeBefore_def path_defs)

text \<open>
  C2, amended. The check of \<^verbatim>\<open>onStart\<close> compares input paths, not output paths.
  For every batch that is dispatched and in which every input path is non-empty after
  the removal of one trailing \<open>z\<close> or \<open>Z\<close>: the batch is not empty and the input
  paths so stripped are pairwise different (compared exactly). The outcome of
  \<^verbatim>\<open>onStart\<close> is either a rejection or the dispatch, so the check comes before any
  job runs. Under the overwrite policy the output path is the stripped input path, so
  there the output paths of such a batch are pairwise different as well.
\<close>

theorem onStart_dispatch_distinct_inputs:
  assumes "fst (onStart env w) = Dispatched jobs"
    and "\<forall>c \<in> set jobs. spec_stripSvgz (inputPath c) \<noteq> []"
  shows "jobs \<noteq> []
       \<and> distinct (map (\<lambda>c. spec_stripSvgz (inputPath c)) jobs)
       \<and> (kSavingMethod (appSettings w) = Overwrite \<longrightarrow> distinct (map outputPath jobs))"
proof -
  note D = onStart_Dispatched [OF assms(1)]
  have in_eq: "map (\<lambda>c. spec_stripSvgz (inputPath c)) jobs =
               map (\<lambda>c. spec_stripSvgz (inputPath c)) (builtJobs env w)"
    using arg_cong [OF D(3), of "map spec_stripSvgz"] by (simp add: comp_def)
  have "[] \<notin> set (map (\<lambda>c. spec_stripSvgz (inputPath c)) jobs)"
    using assms(2) nonempty_conv [of jobs "\<lambda>c. spec_stripSvgz (inputPath c)"] by blast
  then have ne: "\<forall>c \<in> set (builtJobs env w). spec_stripSvgz (inputPath c) \<noteq> []"
    unfolding in_eq
    using nonempty_conv [of "builtJobs env w" "\<lambda>c. spec_stripSvgz (inputPath c)"] by blast
  from findDuplFile_empty_iff [OF ne, of "{}"] D(2)
  have dist: "distinct (map (\<lambda>c. spec_stripSvgz (inputPath c)) (builtJobs env w))" by simp
  from D(1) D(3) have a: "jobs \<noteq> []" by auto
  have b: "distinct (map (\<lambda>c. spec_stripSvgz (inputPath c)) jobs)"
    unfolding in_eq by (rule dist)
  have c: "kSavingMethod (appSettings w) = Overwrite \<longrightarrow> distinct (map outputPath jobs)"
  proof
    assume "kSavingMethod (appSettings w) = Overwrite"
    from builtJobs_Overwrite [OF this, of env] dist show "distinct (map outputPath jobs)"
      unfolding D(4) by (simp only:)
  qed
  from a b c show ?thesis by simp
qed

theorem onStart_dispatch_distinct_inputs_witness:
  "map outputPath (dispatchedJobs (fst (onStart exampleEnv
      (mkWindow Overwrite twoFilesTree (twoFilesStore ''/a/x.svg'' ''/a/y.svgz''))))) =
     [''/a/x.svg'', ''/a/y.svg'']
   \<and> distinct (map outputPath (dispatchedJobs (fst (onStart exampleEnv
      (mkWindow Overwrite twoFilesTree (twoFilesStore ''/a/x.svg'' ''/a/y.svgz''))))))
   \<and> distinct (map (\<lambda>c. spec_stripSvgz (inputPath c)) (dispatchedJobs (fst (onStart exampleEnv
      (mkWindow Overwrite twoFilesTree (twoFilesStore ''/a/x.svg'' ''/a/y.svgz''))))))"
proof -
  let ?w = "mkWindow Overwrite twoFilesTree (twoFilesStore ''/a/x.svg'' ''/a/y.svgz'')"
  let ?jobs = "dispatchedJobs (fst (onStart exampleEnv ?w))"
  have run: "fst (onStart exampleEnv ?w) = Dispatched ?jobs"
    and ins: "map inputPath ?jobs = [''/a/x.svg'', ''/a/y.svgz'']"
    and outs: "map outputPath ?jobs = [''/a/x.svg'', ''/a/y.svg'']"
    by (simp_all add: onStart_def Let_def ex_defs setSizeBefore_def path_defs)
  have "map (\<lambda>c. spec_stripSvgz (inputPath c)) ?jobs = map spec_stripSvgz (map inputPath ?jobs)"
    by (simp add: comp_def)
  then have "map (\<lambda>c. spec_stripSvgz (inputPath c)) ?jobs = [''/a/x.svg'', ''/a/y.svg'']"
    unfolding ins by (simp add: spec_stripSvgz_def)
  then have "[] \<notin> set (map (\<lambda>c. spec_stripSvgz (inputPath c)) ?jobs)" by simp
  then have ne: "\<forall>c \<in> set ?jobs. spec_stripSvgz (inputPath c) \<noteq> []"
    using nonempty_conv [of ?jobs "\<lambda>c. spec_stripSvgz (inputPath c)"] by blast
  have ow: "kSavingMethod (appSettings ?w) = Overwrite" by (simp add: ex_defs)
  from onStart_dispatch_distinct_inputs [OF run ne] ow outs show ?thesis by simp
qed




subsection \<open>What a rejected Start leaves behind\<close>

lemma resetTreeItems_folder:
  "isFolder (st p) \<Longrightarrow>
   resetTreeItems env (TreeItem p children # rest) ow st =
   resetTreeItems env rest ow (resetTreeItems env children ow st)"
  by simp

lemma resetTreeItems_file:
  "\<not> isFolder (st p) \<Longrightarrow>
   resetTreeItems env (TreeItem p children # rest) ow st =
   resetTreeItems env rest ow (st(p := resetOne env ow (st p)))"
  by (cases ow) (simp_all add: Let_def resetOne_def setSizeBefore_def)

lemma resetTreeItems_frame:
  "p \<notin> set (allPtrs its) \<Longrightarrow> resetTreeItems env its ow st p = st p"
proof (induction its arbitrary: st rule: allPtrs.induct)
  case 1
  show ?case by simp
next
  case (2 q cs rest)
  from 2(3) have nq: "p \<noteq> q" and ncs: "p \<notin> set (allPtrs cs)"
    and nrest: "p \<notin> set (allPtrs rest)" by simp_all
  show ?case
  proof (cases "isFolder (st q)")
    case True
    show ?thesis
      unfolding resetTreeItems_folder [where st=st and p=q, OF True] 2(2) [OF nrest] 2(1) [OF ncs] ..
  next
    case False
    show ?thesis
      unfolding resetTreeItems_file [where st=st and p=q, OF False] 2(2) [OF nrest] using nq by simp
  qed
qed

lemma filePtrs_subset: "set (filePtrs st its) \<subseteq> set (allPtrs its)"
  by (induction st its rule: filePtrs.induct) auto

lemma filePtrs_cong:
  "(\<And>p. p \<in> set (allPtrs its) \<Longrightarrow> st' p = st p) \<Longrightarrow> filePtrs st' its = filePtrs st its"
proof (induction st its rule: filePtrs.induct)
  case (1 st)
  show ?case by simp
next
  case (2 st q cs rest)
  from 2(3) have q: "st' q = st q" by simp
  from 2(3) have rest: "filePtrs st' rest = filePtrs st rest" by (intro 2(2)) simp
  show ?case
  proof (cases "isFolder (st q)")
    case True
    from 2(3) have "filePtrs st' cs = filePtrs st cs" by (intro 2(1) [OF True]) simp
    with q rest True show ?thesis by simp
  next
    case False
    with q rest show ?thesis by simp
  qed
qed

lemma resetTreeItems_pointwise:
  "distinct (allPtrs its) \<Longrightarrow>
   resetTreeItems env its ow st p =
     (if p \<in> set (filePtrs st its) then resetOne env ow (st p) else st p)"
proof (induction its arbitrary: st rule: allPtrs.induct)
  case 1
  show ?case by simp
next
  case (2 q cs rest)
  from 2(3) have dcs: "distinct (allPtrs cs)" and drest: "distinct (allPtrs rest)"
    and qcs: "q \<notin> set (allPtrs cs)" and qrest: "q \<notin> set (allPtrs rest)"
    and disj: "set (allPtrs cs) \<inter> set (allPtrs rest) = {}" by auto
  show ?case
  proof (cases "isFolder (st q)")
    case True
    let ?st1 = "resetTreeItems env cs ow st"
    have agree: "\<And>r. r \<in> set (allPtrs rest) \<Longrightarrow> ?st1 r = st r"
      using disj by (intro resetTreeItems_frame) auto
    have fp: "filePtrs ?st1 rest = filePtrs st rest"
      by (rule filePtrs_cong) (rule agree)
    have fps: "set (filePtrs st (TreeItem q cs # rest)) =
               set (filePtrs st cs) \<union> set (filePtrs st rest)"
      using True by simp
    show ?thesis
    proof (cases "p \<in> set (filePtrs st rest)")
      case pr: True
      with filePtrs_subset [of st rest] have "p \<in> set (allPtrs rest)" by blast
      from agree [OF this] pr show ?thesis
        unfolding resetTreeItems_folder [where st=st and p=q, OF True] 2(2) [OF drest] fp fps by simp
    next
      case False
      then show ?thesis
        unfolding resetTreeItems_folder [where st=st and p=q, OF True] 2(2) [OF drest] fp fps 2(1) [OF dcs]
        by simp
    qed
  next
    case False
    let ?st2 = "st(q := resetOne env ow (st q))"
    have agree: "\<And>r. r \<in> set (allPtrs rest) \<Longrightarrow> ?st2 r = st r"
      using qrest by auto
    have fp: "filePtrs ?st2 rest = filePtrs st rest"
      by (rule filePtrs_cong) (rule agree)
    have fps: "set (filePtrs st (TreeItem q cs # rest)) = insert q (set (filePtrs st rest))"
      using False by simp
    show ?thesis
    proof (cases "p \<in> set (filePtrs st rest)")
      case pr: True
      with filePtrs_subset [of st rest] have "p \<in> set (allPtrs rest)" by blast
      from agree [OF this] pr show ?thesis
        unfolding resetTreeItems_file [where st=st and p=q, OF False] 2(2) [OF drest] fp fps by simp
    next
      case nr: False
      then show ?thesis
        unfolding resetTreeItems_file [where st=st and p=q, OF False] 2(2) [OF drest] fp fps by simp
    qed
  qed
qed

lemma resetTreeData_pointwise:
  "distinct (allPtrs (childrenList rt)) \<Longrightarrow>
   resetTreeData env rt ow st p =
     (if p \<in> set (filePtrs st (childrenList rt)) then resetOne env ow (st p) else st p)"
  by (cases rt) (simp add: resetTreeItems_pointwise)

text \<open>
  C10. When Start rejects at the empty-list check or at the name-collision check, the
  fields of the items are no longer those from before the call: every file node that
  \<^verbatim>\<open>resetTreeData\<close> reaches holds the result of \<^verbatim>\<open>resetCleanerData\<close>, applied
  after the size before has been read again from the disk when the policy is
  overwrite; all other addresses are unchanged. The nodes of the tree have pairwise
  different addresses. In the example that follows, a file that shows a finished
  cleaning loses it although Start rejects.
\<close>

theorem onStart_rejection_after_reset:
  assumes "fst (onStart env w) = Rejected e"
    and "e = NoFilesSelected \<or> e = DuplicateFile d"
    and "distinct (allPtrs (childrenList (rootItem w)))"
  shows "items (snd (onStart env w)) p =
     (if p \<in> set (filePtrs (items w) (childrenList (rootItem w)))
      then resetCleanerData env
             (if kSavingMethod (appSettings w) = Overwrite
              then (items w p)\<lparr>sizeBefore := fileSize env (path (items w p))\<rparr>
              else items w p)
      else items w p)"
  unfolding onStart_late_reject_store [OF assms(1,2)] resetStore_def
    resetTreeData_pointwise [OF assms(3)] resetOne_def ..

theorem onStart_rejection_after_reset_witness:
  "fst (onStart exampleEnv (mkWindow Overwrite oneFileTree cleanedStore)) =
     Rejected NoFilesSelected
   \<and> status (items (mkWindow Overwrite oneFileTree cleanedStore) 1) = Ok
   \<and> items (snd (onStart exampleEnv (mkWindow Overwrite oneFileTree cleanedStore))) 1 =
     (mkItem ''/a/x.svg'' False True Unchecked)\<lparr>sizeBefore := 100\<rparr>"
proof -
  let ?w = "mkWindow Overwrite oneFileTree cleanedStore"
  have run: "fst (onStart exampleEnv ?w) = Rejected NoFilesSelected"
    by (simp add: onStart_def Let_def ex_defs setSizeBefore_def oneFileTree_def
        cleanedStore_def)
  have d: "distinct (allPtrs (childrenList (rootItem ?w)))"
    by (simp add: ex_defs oneFileTree_def)
  have fp: "filePtrs (items ?w) (childrenList (rootItem ?w)) = [1]"
    by (simp add: ex_defs oneFileTree_def cleanedStore_def)
  from onStart_rejection_after_reset [OF run _ d, where d = "[]" and p = 1] run
  show ?thesis
    unfolding fp by (simp add: ex_defs cleanedStore_def)
qed

subsection \<open>The result sink\<close>

lemma onResultReadyAt_Error:
  "type res = Error \<Longrightarrow>
   onResultReadyAt st res =
     Inr (st(item res := (st (item res))\<lparr>status := Error, statusText := errorMsg res\<rparr>))"
  by (simp add: onResultReadyAt_def setStatus_def setStatusText_def)

lemma onResultReadyAt_Ok:
  "type res = Ok \<Longrightarrow>
   onResultReadyAt st res =
     Inr (st(item res := (st (item res))\<lparr>sizeAfter := okOutSize (okData res),
            ratio := okRatio (okData res), outPath := okOutputPath (okData res),
            status := Ok\<rparr>))"
  by (simp add: onResultReadyAt_def setStatus_def setSizeAfter_def setRatio_def
      setOutputPath_def Let_def)

lemma onResultReadyAt_Warning:
  "type res = Warning \<Longrightarrow>
   onResultReadyAt st res =
     Inr (st(item res := (st (item res))\<lparr>sizeAfter := okOutSize (okData res),
            ratio := okRatio (okData res), outPath := okOutputPath (okData res),
            status := Warning, statusText := warningMsg res\<rparr>))"
  by (simp add: onResultReadyAt_def setStatus_def setSizeAfter_def setRatio_def
      setOutputPath_def setStatusText_def Let_def)

lemma onResultReadyAt_Pending:
  "type res = Pending \<Longrightarrow> onResultReadyAt st res = Inl Unreachable"
  by (simp add: onResultReadyAt_def Let_def)

lemma onResultReadyAt_step:
  assumes "type res \<noteq> Pending"
  shows "\<exists>st'. onResultReadyAt st res = Inr st' \<and> status (st' (item res)) = type res \<and>
           (\<forall>p. p \<noteq> item res \<longrightarrow> st' p = st p)"
proof (cases "type res")
  case Pending
  with assms show ?thesis by simp
next
  case Ok
  then show ?thesis by (simp add: onResultReadyAt_Ok)
next
  case Warning
  then show ?thesis by (simp add: onResultReadyAt_Warning)
next
  case Error
  then show ?thesis by (simp add: onResultReadyAt_Error)
qed

lemma deliverAll_terminal:
  assumes "\<forall>r \<in> set rs. type r \<noteq> Pending"
  shows "\<exists>st'. deliverAll st rs = Inr st' \<and>
           (\<forall>p. (p \<in> item ` set rs \<or> terminal (status (st p))) \<longrightarrow>
                terminal (status (st' p))) \<and>
           (\<forall>p. p \<notin> item ` set rs \<longrightarrow> st' p = st p)"
  using assms
proof (induction rs arbitrary: st)
  case Nil
  show ?case by simp
next
  case (Cons r rs)
  from Cons.prems have r: "type r \<noteq> Pending" and rs: "\<forall>r \<in> set rs. type r \<noteq> Pending"
    by simp_all
  from onResultReadyAt_step [OF r, of st] obtain st1 where
    s1: "onResultReadyAt st r = Inr st1" and t1: "status (st1 (item r)) = type r"
    and f1: "\<forall>p. p \<noteq> item r \<longrightarrow> st1 p = st p" by blast
  from Cons.IH [OF rs, of st1] obtain st' where
    s2: "deliverAll st1 rs = Inr st'"
    and t2: "\<forall>p. (p \<in> item ` set rs \<or> terminal (status (st1 p))) \<longrightarrow> terminal (status (st' p))"
    and f2: "\<forall>p. p \<notin> item ` set rs \<longrightarrow> st' p = st1 p" by blast
  from r t1 have tr: "terminal (status (st1 (item r)))"
    by (cases "type r") (simp_all add: terminal_def)
  have "deliverAll st (r # rs) = Inr st'" using s1 s2 by simp
  moreover have "\<forall>p. (p \<in> item ` set (r # rs) \<or> terminal (status (st p))) \<longrightarrow>
                  terminal (status (st' p))"
  proof (intro allI impI)
    fix p assume h: "p \<in> item ` set (r # rs) \<or> terminal (status (st p))"
    show "terminal (status (st' p))"
    proof (cases "p = item r")
      case True
      with tr t2 show ?thesis by blast
    next
      case False
      with f1 have "st1 p = st p" by blast
      with h False t2 show ?thesis by auto
    qed
  qed
  moreover have "\<forall>p. p \<notin> item ` set (r # rs) \<longrightarrow> st' p = st p"
    using f1 f2 by auto
  ultimately show ?case by blast
qed

text \<open>
  C7. For a result of kind Error the slot returns normally, sets the status of the
  originating item to Error and its status text to the error message, and changes
  nothing else: the size after, the ratio and the output path of that item keep their
  values, and so do all fields of every other item.
\<close>

theorem onResultReadyAt_error_frame:
  assumes "type res = Error"
  shows "\<exists>st'. onResultReadyAt st res = Inr st'
       \<and> status (st' (item res)) = Error
       \<and> statusText (st' (item res)) = errorMsg res
       \<and> sizeAfter (st' (item res)) = sizeAfter (st (item res))
       \<and> ratio (st' (item res)) = ratio (st (item res))
       \<and> outPath (st' (item res)) = outPath (st (item res))
       \<and> st' = st(item res := (st (item res))\<lparr>status := Error, statusText := errorMsg res\<rparr>)"
  using assms by (simp add: onResultReadyAt_Error)

theorem onResultReadyAt_error_frame_witness:
  "onResultReadyAt (twoFilesStore ''/a/x.svg'' ''/b/x.svg'') errorResult =
     Inr ((twoFilesStore ''/a/x.svg'' ''/b/x.svg'')
            (1 := (mkItem ''/a/x.svg'' False True Checked)
                    \<lparr>status := Error, statusText := ''parse error''\<rparr>))"
proof -
  have e: "type errorResult = Error" by (simp add: errorResult_def)
  from onResultReadyAt_error_frame [OF e, of "twoFilesStore ''/a/x.svg'' ''/b/x.svg''"]
  show ?thesis
    by (auto simp add: errorResult_def twoFilesStore_def)
qed

text \<open>
  C8. A job result has one of the kinds Ok, Warning and Error. Processing such a result
  returns normally and leaves the originating item with a status among Ok, Warning and
  Error. When all results of a batch have been delivered, in whatever order, and every
  dispatched job has its result among them, the item of every dispatched job has such
  a status, so none is left Pending.
\<close>

theorem results_leave_terminal_status:
  assumes "\<forall>r \<in> set rs. type r \<noteq> Pending"
    and "treeItem ` set jobs \<subseteq> item ` set rs"
  shows "(\<forall>r \<in> set rs. \<forall>st0. \<exists>st1. onResultReadyAt st0 r = Inr st1
                           \<and> status (st1 (item r)) \<in> {Ok, Warning, Error})
       \<and> (\<exists>st'. deliverAll st rs = Inr st'
             \<and> (\<forall>r \<in> set rs. status (st' (item r)) \<in> {Ok, Warning, Error})
             \<and> (\<forall>j \<in> set jobs. status (st' (treeItem j)) \<in> {Ok, Warning, Error}
                                 \<and> status (st' (treeItem j)) \<noteq> Pending))"
proof -
  have one: "\<forall>r \<in> set rs. \<forall>st0. \<exists>st1. onResultReadyAt st0 r = Inr st1
                           \<and> status (st1 (item r)) \<in> {Ok, Warning, Error}"
  proof (intro ballI allI)
    fix r st0 assume "r \<in> set rs"
    with assms(1) have r: "type r \<noteq> Pending" by blast
    from onResultReadyAt_step [OF r, of st0] obtain st1 where
      "onResultReadyAt st0 r = Inr st1" and "status (st1 (item r)) = type r" by blast
    with r show "\<exists>st1. onResultReadyAt st0 r = Inr st1
                           \<and> status (st1 (item r)) \<in> {Ok, Warning, Error}"
      by (cases "type r") simp_all
  qed
  from deliverAll_terminal [OF assms(1), of st] obtain st' where
    d: "deliverAll st rs = Inr st'"
    and t: "\<forall>p. (p \<in> item ` set rs \<or> terminal (status (st p))) \<longrightarrow> terminal (status (st' p))"
    by blast
  have a: "\<forall>r \<in> set rs. status (st' (item r)) \<in> {Ok, Warning, Error}"
    using t by (auto simp add: terminal_def)
  have b: "\<forall>j \<in> set jobs. status (st' (treeItem j)) \<in> {Ok, Warning, Error}
                           \<and> status (st' (treeItem j)) \<noteq> Pending"
  proof
    fix j assume "j \<in> set jobs"
    with assms(2) have "treeItem j \<in> item ` set rs" by blast
    with t have "terminal (status (st' (treeItem j)))" by blast
    then show "status (st' (treeItem j)) \<in> {Ok, Warning, Error}
                           \<and> status (st' (treeItem j)) \<noteq> Pending"
      by (auto simp add: terminal_def)
  qed
  from one d a b show ?thesis by blast
qed

theorem results_leave_terminal_status_witness:
  "map treeItem (dispatchedJobs (fst (onStart exampleEnv
      (mkWindow Overwrite twoFilesTree (twoFilesStore ''/a/x.svg'' ''/a/y.svgz''))))) = [1, 2]
   \<and> map item [okResult, errorResult] = [2, 1]
   \<and> deliverAll (items (snd (onStart exampleEnv
          (mkWindow Overwrite twoFilesTree (twoFilesStore ''/a/x.svg'' ''/a/y.svgz'')))))
        [okResult, errorResult] =
      Inr ((twoFilesStore ''/a/x.svg'' ''/a/y.svgz'')
             (1 := (mkItem ''/a/x.svg'' False True Checked)
                     \<lparr>status := Error, statusText := ''parse error'', sizeBefore := 100\<rparr>,
              2 := (mkItem ''/a/y.svgz'' False True Checked)
                     \<lparr>status := Ok, sizeBefore := 100, sizeAfter := 40, ratio := 84,
                       outPath := ''/a/y.svg''\<rparr>))"
proof -
  let ?w = "mkWindow Overwrite twoFilesTree (twoFilesStore ''/a/x.svg'' ''/a/y.svgz'')"
  let ?jobs = "dispatchedJobs (fst (onStart exampleEnv ?w))"
  let ?st = "items (snd (onStart exampleEnv ?w))"
  have kinds: "\<forall>r \<in> set [okResult, errorResult]. type r \<noteq> Pending"
    by (simp add: okResult_def errorResult_def)
  have js: "map treeItem ?jobs = [1, 2]"
    by (simp add: onStart_def Let_def ex_defs setSizeBefore_def path_defs)
  have rs: "map item [okResult, errorResult] = [2, 1]"
    by (simp add: okResult_def errorResult_def)
  have "set (map treeItem ?jobs) \<subseteq> set (map item [okResult, errorResult])"
    unfolding js rs by simp
  then have sub: "treeItem ` set ?jobs \<subseteq> item ` set [okResult, errorResult]"
    by (simp only: set_map)
  have st: "?st = (twoFilesStore ''/a/x.svg'' ''/a/y.svgz'')
       (1 := (mkItem ''/a/x.svg'' False True Checked)\<lparr>sizeBefore := 100\<rparr>,
        2 := (mkItem ''/a/y.svgz'' False True Checked)\<lparr>sizeBefore := 100\<rparr>)"
    by (simp add: onStart_def Let_def ex_defs setSizeBefore_def path_defs fun_eq_iff)
  have run: "deliverAll ?st [okResult, errorResult] =
      Inr ((twoFilesStore ''/a/x.svg'' ''/a/y.svgz'')
             (1 := (mkItem ''/a/x.svg'' False True Checked)
                     \<lparr>status := Error, statusText := ''parse error'', sizeBefore := 100\<rparr>,
              2 := (mkItem ''/a/y.svgz'' False True Checked)
                     \<lparr>status := Ok, sizeBefore := 100, sizeAfter := 40, ratio := 84,
                       outPath := ''/a/y.svg''\<rparr>))"
    unfolding st
    by (simp add: onResultReadyAt_def Let_def okResult_def errorResult_def setStatus_def
        setStatusText_def setSizeAfter_def setRatio_def setOutputPath_def ex_defs fun_eq_iff)
  from results_leave_terminal_status [OF kinds sub, of ?st] js rs run
  show ?thesis by simp
qed

end
